theory Spec2Isabelle
  imports Complex_Main "HOL-Library.Char_ord" "HOL-Library.List_Lexorder" "HOL-Library.Multiset"
begin

section \<open>Weekly node and miner scan: the classifiers\<close>

text \<open>
  The development follows \<^verbatim>\<open>scripts/node_miner_weekly_scan.py\<close>. Python's unbounded
  integers are \<^typ>\<open>int\<close>, its strings are \<^typ>\<open>string\<close> (a character is a code point
  below 256), \<^verbatim>\<open>None\<close> is \<^term>\<open>None\<close>. The two window arguments and the age of
  \<^verbatim>\<open>classify_miner_age\<close> are Python floats; they are read as the real numbers they
  denote, so the division by \<^verbatim>\<open>3600.0\<close> is exact here.
\<close>

subsection \<open>\<^verbatim>\<open>classify_node_host\<close>\<close>

text \<open>
  A Python string is true in a condition when it is not empty, so
  \<^verbatim>\<open>network_version and node_version and node_version != network_version\<close> is the
  conjunction below.
\<close>

definition classify_node_host :: "bool \<Rightarrow> bool \<Rightarrow> string \<Rightarrow> string \<Rightarrow> bool \<times> string" where
  "classify_node_host is_active online node_version network_version =
     (if \<not> is_active then (False, ''inactive_no_payout'')
      else if \<not> online then (False, ''investigate_offline'')
      else if network_version \<noteq> [] \<and> node_version \<noteq> [] \<and> node_version \<noteq> network_version
        then (True, ''pay_weekly_and_upgrade_node'')
      else (True, ''pay_weekly''))"

subsection \<open>\<^verbatim>\<open>classify_miner_age\<close>\<close>




section \<open>Strings and URLs\<close>

subsection \<open>The string methods the script calls\<close>

text \<open>
  \<^verbatim>\<open>str.strip()\<close> removes the characters for which \<^verbatim>\<open>str.isspace\<close> holds; below
  code point 256 these are 9 to 13, 28 to 32, 133 and 160. \<^verbatim>\<open>str.lower()\<close> maps the
  letters A to Z and the Latin-1 capitals 192 to 222 (215 apart) to the code point 32
  higher and leaves every other character below 256 as it is.
\<close>

definition py_isspace :: "char \<Rightarrow> bool" where
  "py_isspace c = (of_char c \<in> set [9, 10, 11, 12, 13, 28, 29, 30, 31, 32, 133, 160 :: nat])"

definition lstrip_chars :: "(char \<Rightarrow> bool) \<Rightarrow> string \<Rightarrow> string" where
  "lstrip_chars P s = dropWhile P s"

definition rstrip_chars :: "(char \<Rightarrow> bool) \<Rightarrow> string \<Rightarrow> string" where
  "rstrip_chars P s = rev (dropWhile P (rev s))"

definition strip :: "string \<Rightarrow> string" where
  "strip s = rstrip_chars py_isspace (lstrip_chars py_isspace s)"

definition py_lower_char :: "char \<Rightarrow> char" where
  "py_lower_char c =
     (let n = (of_char c :: nat) in
      if (65 \<le> n \<and> n \<le> 90) \<or> (192 \<le> n \<and> n \<le> 222 \<and> n \<noteq> 215) then char_of (n + 32) else c)"

definition py_lower :: "string \<Rightarrow> string" where
  "py_lower s = map py_lower_char s"

text \<open>\<^verbatim>\<open>needle in hay\<close> for strings: some suffix of \<open>hay\<close> starts with \<open>needle\<close>.\<close>

fun contains :: "string \<Rightarrow> string \<Rightarrow> bool" where
  "contains needle [] = (needle = [])"
| "contains needle (c # cs) = (take (length needle) (c # cs) = needle \<or> contains needle cs)"

text \<open>
  \<^verbatim>\<open>s.partition(c)\<close> for a single character: the part before the first \<open>c\<close> and the
  part after it (empty when \<open>c\<close> does not occur). \<^verbatim>\<open>s.rpartition(c)[2]\<close> is the part
  after the last \<open>c\<close>, the whole string when \<open>c\<close> does not occur.
\<close>

definition before :: "char \<Rightarrow> string \<Rightarrow> string" where
  "before c s = takeWhile (\<lambda>x. x \<noteq> c) s"

definition after :: "char \<Rightarrow> string \<Rightarrow> string" where
  "after c s = drop 1 (dropWhile (\<lambda>x. x \<noteq> c) s)"

definition after_last :: "char \<Rightarrow> string \<Rightarrow> string" where
  "after_last c s = rev (takeWhile (\<lambda>x. x \<noteq> c) (rev s))"

text \<open>
  Decimal digits: \<^verbatim>\<open>str(n)\<close> for an integer and \<^verbatim>\<open>int(s)\<close> for a string of
  ASCII digits.
\<close>

definition digit_char :: "int \<Rightarrow> char" where
  "digit_char d = char_of (48 + d)"

function show_digits :: "int \<Rightarrow> string" where
  "show_digits n =
     (if n < 10 then [digit_char n] else show_digits (n div 10) @ [digit_char (n mod 10)])"
  by pat_completeness auto
termination
  by (relation "measure nat") auto

declare show_digits.simps [simp del]

definition show_int :: "int \<Rightarrow> string" where
  "show_int n = (if n < 0 then CHR ''-'' # show_digits (- n) else show_digits n)"

definition is_ascii_digit :: "char \<Rightarrow> bool" where
  "is_ascii_digit c = (48 \<le> (of_char c :: nat) \<and> (of_char c :: nat) \<le> 57)"

definition int_of_digits :: "string \<Rightarrow> int" where
  "int_of_digits s = foldl (\<lambda>acc c. 10 * acc + (of_char c - 48)) 0 s"

subsection \<open>\<^verbatim>\<open>urllib.parse.urlparse\<close>\<close>

text \<open>
  The script parses URLs with the standard library, which is not part of the repository.
  The functions below follow \<^verbatim>\<open>urlsplit\<close>, \<^verbatim>\<open>urlparse\<close> and the \<^verbatim>\<open>hostname\<close> and
  \<^verbatim>\<open>port\<close> properties of CPython 3.11 on strings of code points below 256, where
  \<^verbatim>\<open>_checknetloc\<close> never raises. Only the components the script reads are kept: scheme,
  netloc and path. \<^verbatim>\<open>urlsplit\<close> hands a bracketed host to \<^verbatim>\<open>ipaddress\<close>; whether that
  library accepts it is the parameter \<open>ok\<close>, and everything proved holds for each \<open>ok\<close>.
  Each \<^verbatim>\<open>ValueError\<close> the library raises is the result \<^term>\<open>Inl ValueError\<close>.
\<close>

datatype error = ValueError

record parse_result =
  scheme :: string
  netloc :: string
  path :: string

definition is_ascii_alpha :: "char \<Rightarrow> bool" where
  "is_ascii_alpha c =
     (let n = (of_char c :: nat) in (65 \<le> n \<and> n \<le> 90) \<or> (97 \<le> n \<and> n \<le> 122))"

definition scheme_char :: "char \<Rightarrow> bool" where
  "scheme_char c = (is_ascii_alpha c \<or> is_ascii_digit c \<or> c \<in> set ''+-.'')"

definition c0_control_or_space :: "char \<Rightarrow> bool" where
  "c0_control_or_space c = ((of_char c :: nat) \<le> 32)"

definition unsafe_url_byte :: "char \<Rightarrow> bool" where
  "unsafe_url_byte c = ((of_char c :: nat) \<in> set [9, 13, 10])"

definition netloc_delim :: "char \<Rightarrow> bool" where
  "netloc_delim c = (c \<in> set ''/?#'')"

text \<open>
  The scheme test of \<^verbatim>\<open>urlsplit\<close>: with \<open>i\<close> the position of the first colon, the
  text before it is a scheme when \<open>i > 0\<close>, the first character is an ASCII letter and
  all of it is made of scheme characters.
\<close>

definition split_scheme :: "string \<Rightarrow> string \<times> string" where
  "split_scheme url =
     (let pre = before CHR '':'' url in
      if CHR '':'' \<in> set url \<and> pre \<noteq> [] \<and> is_ascii_alpha (hd url) \<and> list_all scheme_char pre
      then (py_lower pre, after CHR '':'' url)
      else ([], url))"

definition urlsplit :: "(string \<Rightarrow> bool) \<Rightarrow> string \<Rightarrow> error + parse_result" where
  "urlsplit ok url0 =
     (let url1 = lstrip_chars c0_control_or_space url0;
          url2 = filter (\<lambda>c. \<not> unsafe_url_byte c) url1;
          (sch, url3) = split_scheme url2
      in if take 2 url3 = ''//'' then
           (let nl = takeWhile (\<lambda>c. \<not> netloc_delim c) (drop 2 url3);
                url4 = dropWhile (\<lambda>c. \<not> netloc_delim c) (drop 2 url3)
            in if (CHR ''['' \<in> set nl \<and> CHR '']'' \<notin> set nl) \<or>
                  (CHR '']'' \<in> set nl \<and> CHR ''['' \<notin> set nl) then Inl ValueError
               else if CHR ''['' \<in> set nl \<and> CHR '']'' \<in> set nl \<and>
                       \<not> ok (before CHR '']'' (after CHR ''['' nl)) then Inl ValueError
               else Inr \<lparr>scheme = sch, netloc = nl,
                          path = before CHR ''?'' (before CHR ''#'' url4)\<rparr>)
         else Inr \<lparr>scheme = sch, netloc = [], path = before CHR ''?'' (before CHR ''#'' url3)\<rparr>)"

definition uses_params :: "string list" where
  "uses_params = ['''', ''ftp'', ''hdl'', ''prospero'', ''http'', ''imap'', ''https'', ''shttp'',
     ''rtsp'', ''rtsps'', ''rtspu'', ''sip'', ''sips'', ''mms'', ''sftp'', ''tel'']"

text \<open>
  \<^verbatim>\<open>_splitparams(url)[0]\<close>: with a slash in the path, the parameters start at the first
  semicolon after the last slash (none: the path is unchanged); without a slash, at the
  first semicolon.
\<close>

definition splitparams :: "string \<Rightarrow> string" where
  "splitparams url =
     (if CHR ''/'' \<in> set url then
        (let tl = after_last CHR ''/'' url
         in if CHR '';'' \<in> set tl
            then take (length url - length tl) url @ before CHR '';'' tl else url)
      else before CHR '';'' url)"

definition urlparse :: "(string \<Rightarrow> bool) \<Rightarrow> string \<Rightarrow> error + parse_result" where
  "urlparse ok url =
     (case urlsplit ok url of
        Inl e \<Rightarrow> Inl e
      | Inr r \<Rightarrow>
          if scheme r \<in> set uses_params \<and> CHR '';'' \<in> set (path r)
          then Inr (r\<lparr>path := splitparams (path r)\<rparr>) else Inr r)"

text \<open>\<^verbatim>\<open>_hostinfo\<close>: the host and the port text of a netloc, the port \<^verbatim>\<open>None\<close> when empty.\<close>

definition hostinfo :: "string \<Rightarrow> string \<times> string option" where
  "hostinfo nl =
     (let hi = after_last CHR ''@'' nl;
          (h, p) =
            (if CHR ''['' \<in> set hi then
               (let bracketed = after CHR ''['' hi
                in (before CHR '']'' bracketed, after CHR '':'' (after CHR '']'' bracketed)))
             else (before CHR '':'' hi, after CHR '':'' hi))
      in (h, if p = [] then None else Some p))"

definition hostname :: "parse_result \<Rightarrow> string option" where
  "hostname r =
     (let h = fst (hostinfo (netloc r))
      in if h = [] then None
         else Some (py_lower (before CHR ''%'' h) @ dropWhile (\<lambda>x. x \<noteq> CHR ''%'') h))"

definition port :: "parse_result \<Rightarrow> error + int option" where
  "port r =
     (case snd (hostinfo (netloc r)) of
        None \<Rightarrow> Inr None
      | Some p \<Rightarrow>
          if list_all is_ascii_digit p then
            (if int_of_digits p \<le> 65535 then Inr (Some (int_of_digits p)) else Inl ValueError)
          else Inl ValueError)"

subsection \<open>\<^verbatim>\<open>normalize_base_url\<close> and \<^verbatim>\<open>node_identity\<close>\<close>

definition normalize_base_url :: "(string \<Rightarrow> bool) \<Rightarrow> string \<Rightarrow> error + string" where
  "normalize_base_url ok raw =
     (let text = strip raw in
      if text = [] then Inr []
      else
        (let text' = (if \<not> contains ''://'' text then ''https://'' @ text else text)
         in case urlparse ok text' of
              Inl e \<Rightarrow> Inl e
            | Inr parsed \<Rightarrow>
                (let sch = (if scheme parsed \<noteq> [] then scheme parsed else ''https'');
                     nl = (if netloc parsed \<noteq> [] then netloc parsed else path parsed)
                 in Inr (rstrip_chars (\<lambda>c. c = CHR ''/'') (sch @ ''://'' @ nl)))))"

definition node_identity :: "(string \<Rightarrow> bool) \<Rightarrow> string \<Rightarrow> error + string" where
  "node_identity ok url =
     (case urlparse ok url of
        Inl e \<Rightarrow> Inl e
      | Inr parsed \<Rightarrow>
          (let host = (case hostname parsed of
                         Some h \<Rightarrow> h
                       | None \<Rightarrow> if netloc parsed \<noteq> [] then netloc parsed else url)
           in case port parsed of
                Inl e \<Rightarrow> Inl e
              | Inr None \<Rightarrow>
                  Inr (host @ '':'' @ show_int (if scheme parsed = ''https'' then 443 else 80))
              | Inr (Some p) \<Rightarrow> Inr (host @ '':'' @ show_int p)))"

subsection \<open>\<^verbatim>\<open>_dedupe_preserve\<close>\<close>

definition err_bind :: "error + 'a \<Rightarrow> ('a \<Rightarrow> error + 'b) \<Rightarrow> error + 'b" where
  "err_bind m f = (case m of Inl e \<Rightarrow> Inl e | Inr x \<Rightarrow> f x)"

text \<open>The loop of \<^verbatim>\<open>_dedupe_preserve\<close>, with its two accumulators \<open>out\<close> and \<open>seen\<close>.\<close>

fun dedupe_loop ::
  "(string \<Rightarrow> bool) \<Rightarrow> string list \<Rightarrow> string list \<Rightarrow> string set \<Rightarrow> error + string list" where
  "dedupe_loop ok [] out seen = Inr out"
| "dedupe_loop ok (v # vs) out seen =
     err_bind (normalize_base_url ok v) (\<lambda>norm.
       if norm = [] then dedupe_loop ok vs out seen
       else err_bind (node_identity ok norm) (\<lambda>key.
         if key \<in> seen then dedupe_loop ok vs out seen
         else dedupe_loop ok vs (out @ [norm]) (insert key seen)))"

definition dedupe_preserve :: "(string \<Rightarrow> bool) \<Rightarrow> string list \<Rightarrow> error + string list" where
  "dedupe_preserve ok vals = dedupe_loop ok vals [] {}"

section \<open>JSON payloads\<close>

text \<open>
  The payloads are the result of \<^verbatim>\<open>json.loads\<close>. A value is an object, an array or
  anything else (\<^verbatim>\<open>null\<close>, a boolean, a number, a string); \<^verbatim>\<open>isinstance(x, dict)\<close>
  and \<^verbatim>\<open>isinstance(x, list)\<close> are the first two cases. The objects the script reads are
  records of the fields it reads, each field typed as the endpoint documents it and in one
  of three states: the key is absent, the value is \<^verbatim>\<open>null\<close>, or it is a value of the
  field's type. Values of another JSON type in a field are outside this model.
\<close>

datatype 'a field = Absent | Null | Val 'a

datatype 'd json = JDict 'd | JList "'d json list" | JOther

text \<open>\<^verbatim>\<open>row.get(k)\<close>: \<^verbatim>\<open>None\<close> for an absent key and for \<^verbatim>\<open>null\<close>.\<close>

definition get_field :: "'a field \<Rightarrow> 'a option" where
  "get_field f = (case f of Val v \<Rightarrow> Some v | _ \<Rightarrow> None)"

text \<open>\<^verbatim>\<open>str(row.get(k, ""))\<close>: the default for an absent key, \<^verbatim>\<open>str(None)\<close> for \<^verbatim>\<open>null\<close>.\<close>

definition str_field :: "string field \<Rightarrow> string" where
  "str_field f = (case f of Absent \<Rightarrow> [] | Null \<Rightarrow> ''None'' | Val s \<Rightarrow> s)"

text \<open>\<^verbatim>\<open>row.get(k)\<close> as a condition: a non-empty string.\<close>

definition truthy_field :: "string field \<Rightarrow> bool" where
  "truthy_field f = (case f of Val s \<Rightarrow> s \<noteq> [] | _ \<Rightarrow> False)"

text \<open>\<^verbatim>\<open>row.get(k) or d\<close>.\<close>

definition field_or :: "string field \<Rightarrow> string \<Rightarrow> string" where
  "field_or f d = (case f of Val s \<Rightarrow> if s \<noteq> [] then s else d | _ \<Rightarrow> d)"

text \<open>\<^verbatim>\<open>bool(row.get(k, d))\<close>.\<close>

definition bool_field :: "bool field \<Rightarrow> bool \<Rightarrow> bool" where
  "bool_field f d = (case f of Absent \<Rightarrow> d | Null \<Rightarrow> False | Val b \<Rightarrow> b)"

text \<open>\<^verbatim>\<open>int(row.get(k) or 0)\<close>.\<close>

definition int_field_or_zero :: "int field \<Rightarrow> int" where
  "int_field_or_zero f = (case f of Val n \<Rightarrow> n | _ \<Rightarrow> 0)"

definition is_dict :: "'d json \<Rightarrow> bool" where
  "is_dict j = (case j of JDict d \<Rightarrow> True | _ \<Rightarrow> False)"

text \<open>\<^verbatim>\<open>[m for m in xs if isinstance(m, dict)]\<close>.\<close>

definition dicts_of :: "'d json list \<Rightarrow> 'd list" where
  "dicts_of xs = concat (map (\<lambda>j. case j of JDict d \<Rightarrow> [d] | _ \<Rightarrow> []) xs)"

section \<open>The miner aggregator\<close>

record sighting =
  s_miner :: "string field"
  s_last_attest :: "int field"
  s_first_attest :: "int field"
  s_device_family :: "string field"
  s_device_arch :: "string field"
  s_hardware_type :: "string field"
  s_entropy_score :: "real field"
  s_antiquity_multiplier :: "real field"

record miner_record =
  miner :: string
  last_attest :: "int option"
  first_attest :: "int option"
  device_family :: "string option"
  device_arch :: "string option"
  hardware_type :: "string option"
  entropy_score :: "real option"
  antiquity_multiplier :: "real option"
  nodes_seen :: "string list"

text \<open>
  The dictionaries \<^verbatim>\<open>node_miners\<close> and \<^verbatim>\<open>aggregate\<close> are association lists in
  insertion order, the order in which Python iterates a dictionary; storing under a key
  that is present replaces the value in place, and under a new key appends.
\<close>

fun dict_set :: "'k \<Rightarrow> 'v \<Rightarrow> ('k \<times> 'v) list \<Rightarrow> ('k \<times> 'v) list" where
  "dict_set k v [] = [(k, v)]"
| "dict_set k v ((k', v') # al) = (if k' = k then (k, v) # al else (k', v') # dict_set k v al)"

definition miner_id_of :: "sighting \<Rightarrow> string" where
  "miner_id_of row = strip (str_field (s_miner row))"

text \<open>The body of the inner loop of \<^verbatim>\<open>_aggregate_miners\<close>, for one row of one node.\<close>

definition aggregate_row ::
  "string \<Rightarrow> sighting \<Rightarrow> (string \<times> miner_record) list \<Rightarrow> (string \<times> miner_record) list" where
  "aggregate_row node_url row aggregate =
     (let miner_id = miner_id_of row in
      if miner_id = [] then aggregate
      else
        (let la = int_field_or_zero (s_last_attest row) in
         case map_of aggregate miner_id of
           None \<Rightarrow>
             dict_set miner_id
               \<lparr>miner = miner_id,
                last_attest = (if la > 0 then Some la else None),
                first_attest = get_field (s_first_attest row),
                device_family = get_field (s_device_family row),
                device_arch = get_field (s_device_arch row),
                hardware_type = get_field (s_hardware_type row),
                entropy_score = get_field (s_entropy_score row),
                antiquity_multiplier = get_field (s_antiquity_multiplier row),
                nodes_seen = [node_url]\<rparr> aggregate
         | Some existing \<Rightarrow>
             (let e1 = (if la \<noteq> 0 \<and> (case last_attest existing of None \<Rightarrow> 0 | Some t \<Rightarrow> t) < la
                        then existing\<lparr>last_attest := Some la\<rparr> else existing);
                  e2 = (if node_url \<notin> set (nodes_seen e1)
                        then e1\<lparr>nodes_seen := nodes_seen e1 @ [node_url]\<rparr> else e1)
              in dict_set miner_id e2 aggregate)))"

definition aggregate_miners ::
  "(string \<times> sighting list) list \<Rightarrow> (string \<times> miner_record) list" where
  "aggregate_miners node_miners =
     fold (\<lambda>(node_url, rows) aggregate. fold (aggregate_row node_url) rows aggregate) node_miners []"

text \<open>
  What the loop body does to the record of one miner: \<open>None\<close> is a miner not yet in
  \<^verbatim>\<open>aggregate\<close>.
\<close>

definition merge_row :: "string \<Rightarrow> sighting \<Rightarrow> miner_record option \<Rightarrow> miner_record" where
  "merge_row node_url row existing_opt =
     (let la = int_field_or_zero (s_last_attest row) in
      case existing_opt of
        None \<Rightarrow>
          \<lparr>miner = miner_id_of row,
           last_attest = (if la > 0 then Some la else None),
           first_attest = get_field (s_first_attest row),
           device_family = get_field (s_device_family row),
           device_arch = get_field (s_device_arch row),
           hardware_type = get_field (s_hardware_type row),
           entropy_score = get_field (s_entropy_score row),
           antiquity_multiplier = get_field (s_antiquity_multiplier row),
           nodes_seen = [node_url]\<rparr>
      | Some existing \<Rightarrow>
          (let e1 = (if la \<noteq> 0 \<and> (case last_attest existing of None \<Rightarrow> 0 | Some t \<Rightarrow> t) < la
                     then existing\<lparr>last_attest := Some la\<rparr> else existing)
           in if node_url \<notin> set (nodes_seen e1)
              then e1\<lparr>nodes_seen := nodes_seen e1 @ [node_url]\<rparr> else e1))"

text \<open>The sightings in the order in which the two loops visit them.\<close>

definition sightings_of :: "(string \<times> sighting list) list \<Rightarrow> (string \<times> sighting) list" where
  "sightings_of node_miners = concat (map (\<lambda>(node_url, rows). map (Pair node_url) rows) node_miners)"

text \<open>
  What the specification says of one miner \<open>m\<close>: the timestamps that count are the
  positive ones among the sightings of \<open>m\<close>, and the contributing nodes are the nodes
  with a sighting of \<open>m\<close>.
\<close>

definition positive_attests :: "string \<Rightarrow> (string \<times> sighting) list \<Rightarrow> int set" where
  "positive_attests m xs =
     {t. 0 < t \<and> (\<exists>(n, row) \<in> set xs. miner_id_of row = m \<and> int_field_or_zero (s_last_attest row) = t)}"

definition contributing_nodes :: "string \<Rightarrow> (string \<times> sighting) list \<Rightarrow> string set" where
  "contributing_nodes m xs = {n. \<exists>row. (n, row) \<in> set xs \<and> miner_id_of row = m}"

definition max_attest :: "string \<Rightarrow> (string \<times> sighting) list \<Rightarrow> int option" where
  "max_attest m xs = (if positive_attests m xs = {} then None else Some (Max (positive_attests m xs)))"

text \<open>The order on optional timestamps in which an absent one is below every other.\<close>

definition attest_le :: "int option \<Rightarrow> int option \<Rightarrow> bool" where
  "attest_le a b = (case a of None \<Rightarrow> True | Some x \<Rightarrow> (case b of None \<Rightarrow> False | Some y \<Rightarrow> x \<le> y))"

text \<open>
  The record of miner \<open>m\<close> after the sightings \<open>xs\<close>, as the specification describes
  it: no record when \<open>m\<close> is empty or no sighting names it; otherwise the freshest positive
  timestamp and the contributing nodes, each once.
\<close>

definition miner_view_ok :: "string \<Rightarrow> (string \<times> sighting) list \<Rightarrow> miner_record option \<Rightarrow> bool" where
  "miner_view_ok m xs ro =
     (case ro of
        None \<Rightarrow> m = [] \<or> contributing_nodes m xs = {}
      | Some r \<Rightarrow> m \<noteq> [] \<and> miner r = m \<and> last_attest r = max_attest m xs \<and>
          set (nodes_seen r) = contributing_nodes m xs \<and> nodes_seen r \<noteq> [] \<and>
          distinct (nodes_seen r))"

text \<open>A sighting with a miner id, a timestamp and a device family, all else absent.\<close>

definition sighting_at :: "string \<Rightarrow> int field \<Rightarrow> string \<Rightarrow> sighting" where
  "sighting_at m t fam =
     \<lparr>s_miner = Val m, s_last_attest = t, s_first_attest = Absent, s_device_family = Val fam,
      s_device_arch = Absent, s_hardware_type = Absent, s_entropy_score = Absent,
      s_antiquity_multiplier = Absent\<rparr>"

section \<open>The missing-expected-miner detector\<close>

record gap_row =
  g_miner :: string
  g_state :: string
  g_weekly_eligible :: bool
  g_suggested_action :: string

text \<open>
  \<^verbatim>\<open>sorted(expected - observed_miners)\<close>: Python orders strings by code point,
  lexicographically, which is the order of \<^typ>\<open>string\<close> here.
\<close>

definition missing_expected :: "string set \<Rightarrow> string set \<Rightarrow> string list" where
  "missing_expected expected observed_miners = sorted_list_of_set (expected - observed_miners)"

definition missing_expected_rows :: "string set \<Rightarrow> string set \<Rightarrow> gap_row list" where
  "missing_expected_rows expected observed_miners =
     map (\<lambda>miner_id. \<lparr>g_miner = miner_id, g_state = ''not_visible_in_public_api'',
                       g_weekly_eligible = False,
                       g_suggested_action = ''check_node_url_then_upgrade_miner''\<rparr>)
       (missing_expected expected observed_miners)"

section \<open>The node scan of \<^verbatim>\<open>build_report\<close>\<close>

text \<open>
  The objects of the three endpoints, with the fields the script reads. Fetching is the
  external capability: \<open>fetch_health\<close>, \<open>fetch_nodes\<close> and \<open>fetch_miners\<close> give, for a
  base URL, the pair of payload and error that \<^verbatim>\<open>fetch_json\<close> returns for the paths
  \<^verbatim>\<open>/health\<close>, \<^verbatim>\<open>/api/nodes\<close> and \<^verbatim>\<open>/api/miners\<close>. A payload \<^verbatim>\<open>None\<close> is
  \<^term>\<open>JOther\<close>.
\<close>

record health =
  h_ok :: "bool field"
  h_version :: "string field"
  h_uptime_s :: "real field"

record registry_row =
  r_url :: "string field"
  r_node_id :: "string field"
  r_name :: "string field"
  r_wallet :: "string field"
  r_is_active :: "bool field"

text \<open>
  The payload of \<^verbatim>\<open>/api/nodes\<close>: an object, of which only the key \<^verbatim>\<open>nodes\<close> is read,
  an array, or anything else.
\<close>

datatype nodes_payload =
  NodesDict "registry_row json field" | NodesList "registry_row json list" | NodesOther

record node_row =
  nr_node_id :: string
  nr_name :: string
  nr_wallet :: "string option"
  nr_url :: string
  nr_is_active :: bool
  nr_online :: bool
  nr_health_ok :: bool
  nr_version :: string
  nr_uptime_s :: "real option"
  nr_payout_eligible :: bool
  nr_suggested_action :: string
  nr_health_error :: "string option"
  nr_miners_error :: "string option"

record mismatch_row =
  vm_node_url :: string
  vm_node_id :: "string option"
  vm_node_version :: string
  vm_network_version :: "string option"

record scan_state =
  st_node_rows :: "node_row list"
  st_node_miners :: "(string \<times> sighting list) list"
  st_version_mismatch :: "mismatch_row list"

text \<open>The rows of \<^verbatim>\<open>_registry_rows_to_map\<close>: the objects of the array.\<close>

definition registry_rows_of :: "nodes_payload \<Rightarrow> registry_row list" where
  "registry_rows_of nodes_payload =
     (case nodes_payload of
        NodesDict f \<Rightarrow>
          (case f of
             Absent \<Rightarrow> []
           | Null \<Rightarrow> []
           | Val raw_rows \<Rightarrow> (case raw_rows of JList items \<Rightarrow> dicts_of items | _ \<Rightarrow> []))
      | NodesList items \<Rightarrow> dicts_of items
      | NodesOther \<Rightarrow> [])"

text \<open>The map of \<^verbatim>\<open>_registry_rows_to_map\<close>: a later row with the same key replaces an earlier one.\<close>

fun registry_map_loop ::
  "(string \<Rightarrow> bool) \<Rightarrow> registry_row list \<Rightarrow> (string \<rightharpoonup> registry_row) \<Rightarrow>
   error + (string \<rightharpoonup> registry_row)" where
  "registry_map_loop ok [] mapped = Inr mapped"
| "registry_map_loop ok (row # rows) mapped =
     err_bind (normalize_base_url ok (str_field (r_url row))) (\<lambda>norm.
       err_bind (node_identity ok norm) (\<lambda>key.
         registry_map_loop ok rows (if key \<noteq> [] then mapped(key \<mapsto> row) else mapped)))"

text \<open>
  \<^verbatim>\<open>seed_health.get("version", "") if isinstance(seed_health, dict) else ""\<close>; the result
  \<^term>\<open>None\<close> is Python's \<^verbatim>\<open>None\<close>, for a version that is \<^verbatim>\<open>null\<close>.
\<close>

definition network_version_of :: "health json \<Rightarrow> string option" where
  "network_version_of seed_health =
     (case seed_health of
        JDict h \<Rightarrow> (case h_version h of Absent \<Rightarrow> Some [] | Null \<Rightarrow> None | Val s \<Rightarrow> Some s)
      | _ \<Rightarrow> Some [])"

definition discovered_urls :: "string \<Rightarrow> registry_row list \<Rightarrow> string list \<Rightarrow> string list" where
  "discovered_urls seed registry_rows node_url_args =
     [seed] @ map (\<lambda>r. strip (str_field (r_url r))) (filter (\<lambda>r. truthy_field (r_url r)) registry_rows)
       @ node_url_args"

text \<open>\<^verbatim>\<open>registry.get(k)\<close> where \<^verbatim>\<open>registry\<close> is the row of the map or the empty object.\<close>

definition reg_get :: "(registry_row \<Rightarrow> 'a field) \<Rightarrow> registry_row option \<Rightarrow> 'a field" where
  "reg_get f registry = (case registry of None \<Rightarrow> Absent | Some r \<Rightarrow> f r)"

text \<open>
  The body of the loop over \<^verbatim>\<open>node_urls\<close>. \<^verbatim>\<open>classify_node_host\<close> only tests its
  version arguments for emptiness and inequality, and \<^verbatim>\<open>None\<close> is false in a condition
  as the empty string is, so a network version \<^verbatim>\<open>None\<close> is passed as the empty string.
\<close>

definition scan_node ::
  "(string \<Rightarrow> bool) \<Rightarrow> string \<Rightarrow> string option \<Rightarrow> (string \<rightharpoonup> registry_row) \<Rightarrow>
   (string \<Rightarrow> health json \<times> string option) \<Rightarrow> (string \<Rightarrow> sighting json \<times> string option) \<Rightarrow>
   string \<Rightarrow> scan_state \<Rightarrow> error + scan_state" where
  "scan_node ok seed network_version registry_map fetch_health fetch_miners node_url st =
     err_bind (node_identity ok node_url) (\<lambda>key.
       let registry = registry_map key;
           (health_payload, health_err) = fetch_health node_url;
           (miners_payload, miners_err) = fetch_miners node_url;
           online = (is_dict health_payload \<and> health_err = None);
           node_version = (case health_payload of JDict h \<Rightarrow> str_field (h_version h) | _ \<Rightarrow> []);
           uptime_s = (case health_payload of JDict h \<Rightarrow> get_field (h_uptime_s h) | _ \<Rightarrow> None);
           is_active = bool_field (reg_get r_is_active registry) (node_url = seed);
           (payout_eligible, action) =
             classify_node_host is_active online node_version
               (case network_version of None \<Rightarrow> [] | Some v \<Rightarrow> v);
           mismatch =
             (if action = ''pay_weekly_and_upgrade_node''
              then [\<lparr>vm_node_url = node_url, vm_node_id = get_field (reg_get r_node_id registry),
                      vm_node_version = node_version, vm_network_version = network_version\<rparr>]
              else []);
           row =
             \<lparr>nr_node_id = field_or (reg_get r_node_id registry) key,
              nr_name = field_or (reg_get r_name registry) key,
              nr_wallet = get_field (reg_get r_wallet registry),
              nr_url = node_url,
              nr_is_active = is_active,
              nr_online = online,
              nr_health_ok =
                (case health_payload of JDict h \<Rightarrow> bool_field (h_ok h) False | _ \<Rightarrow> False),
              nr_version = node_version,
              nr_uptime_s = uptime_s,
              nr_payout_eligible = payout_eligible,
              nr_suggested_action = action,
              nr_health_error = health_err,
              nr_miners_error = miners_err\<rparr>;
           miners_list = (case miners_payload of JList items \<Rightarrow> dicts_of items | _ \<Rightarrow> [])
       in Inr \<lparr>st_node_rows = st_node_rows st @ [row],
                st_node_miners = dict_set node_url miners_list (st_node_miners st),
                st_version_mismatch = st_version_mismatch st @ mismatch\<rparr>)"

fun scan_nodes ::
  "(string \<Rightarrow> bool) \<Rightarrow> string \<Rightarrow> string option \<Rightarrow> (string \<rightharpoonup> registry_row) \<Rightarrow>
   (string \<Rightarrow> health json \<times> string option) \<Rightarrow> (string \<Rightarrow> sighting json \<times> string option) \<Rightarrow>
   string list \<Rightarrow> scan_state \<Rightarrow> error + scan_state" where
  "scan_nodes ok seed nv registry_map fetch_health fetch_miners [] st = Inr st"
| "scan_nodes ok seed nv registry_map fetch_health fetch_miners (node_url # node_urls) st =
     err_bind (scan_node ok seed nv registry_map fetch_health fetch_miners node_url st)
       (scan_nodes ok seed nv registry_map fetch_health fetch_miners node_urls)"

text \<open>\<^verbatim>\<open>{node_identity(n["url"]) for n in node_rows if n.get("url")}\<close>.\<close>

fun scanned_keys :: "(string \<Rightarrow> bool) \<Rightarrow> node_row list \<Rightarrow> error + string set" where
  "scanned_keys ok [] = Inr {}"
| "scanned_keys ok (n # ns) =
     (if nr_url n \<noteq> [] then
        err_bind (node_identity ok (nr_url n)) (\<lambda>key.
          err_bind (scanned_keys ok ns) (\<lambda>keys. Inr (insert key keys)))
      else scanned_keys ok ns)"

definition missing_url_row :: "registry_row \<Rightarrow> node_row" where
  "missing_url_row row =
     \<lparr>nr_node_id = field_or (r_node_id row) ''unknown_node'',
      nr_name = field_or (r_name row) ''unknown_node'',
      nr_wallet = get_field (r_wallet row),
      nr_url = ''-'',
      nr_is_active = bool_field (r_is_active row) False,
      nr_online = False,
      nr_health_ok = False,
      nr_version = ''-'',
      nr_uptime_s = None,
      nr_payout_eligible = False,
      nr_suggested_action = ''missing_url_or_redacted'',
      nr_health_error = Some ''missing_url'',
      nr_miners_error = Some ''missing_url''\<rparr>"

text \<open>The loop over \<^verbatim>\<open>registry_rows\<close> that adds the rows of nodes without a URL.\<close>

fun missing_url_loop ::
  "(string \<Rightarrow> bool) \<Rightarrow> string set \<Rightarrow> registry_row list \<Rightarrow> node_row list \<Rightarrow> error + node_row list" where
  "missing_url_loop ok keys [] rows = Inr rows"
| "missing_url_loop ok keys (row # rest) rows =
     err_bind (normalize_base_url ok (str_field (r_url row))) (\<lambda>raw_url.
       err_bind (if raw_url \<noteq> [] then node_identity ok raw_url else Inr []) (\<lambda>key.
         if raw_url \<noteq> [] \<and> key \<in> keys then missing_url_loop ok keys rest rows
         else if raw_url = [] then missing_url_loop ok keys rest (rows @ [missing_url_row row])
         else missing_url_loop ok keys rest rows))"

text \<open>
  \<^verbatim>\<open>build_report\<close> up to the node rows: the seed, the registry, the candidates, the scan
  of each candidate and the rows of the nodes without a URL.
\<close>

definition build_node_rows ::
  "(string \<Rightarrow> bool) \<Rightarrow> string \<Rightarrow> string list \<Rightarrow>
   (string \<Rightarrow> health json \<times> string option) \<Rightarrow> (string \<Rightarrow> nodes_payload \<times> string option) \<Rightarrow>
   (string \<Rightarrow> sighting json \<times> string option) \<Rightarrow> error + scan_state" where
  "build_node_rows ok seed_node node_url_args fetch_health fetch_nodes fetch_miners =
     err_bind (normalize_base_url ok seed_node) (\<lambda>seed.
       let network_version = network_version_of (fst (fetch_health seed));
           registry_rows = registry_rows_of (fst (fetch_nodes seed))
       in err_bind (registry_map_loop ok registry_rows Map.empty) (\<lambda>registry_map.
            err_bind (dedupe_preserve ok (discovered_urls seed registry_rows node_url_args)) (\<lambda>node_urls.
              err_bind (scan_nodes ok seed network_version registry_map fetch_health fetch_miners
                          node_urls \<lparr>st_node_rows = [], st_node_miners = [], st_version_mismatch = []\<rparr>) (\<lambda>st.
                err_bind (scanned_keys ok (st_node_rows st)) (\<lambda>keys.
                  err_bind (missing_url_loop ok keys registry_rows (st_node_rows st)) (\<lambda>rows.
                    Inr (st\<lparr>st_node_rows := rows\<rparr>)))))))"

section \<open>Well-formed URLs and the reconciler of the specification\<close>

text \<open>
  The URLs for which the specification's statements about normalization hold: a scheme
  as \<^verbatim>\<open>urlsplit\<close> recognises it, and a host or netloc of visible characters without the
  delimiters of a URL.
\<close>

definition valid_scheme :: "string \<Rightarrow> bool" where
  "valid_scheme s = (s \<noteq> [] \<and> is_ascii_alpha (hd s) \<and> list_all scheme_char s)"

definition host_char :: "char \<Rightarrow> bool" where
  "host_char c = (\<not> c0_control_or_space c \<and> \<not> py_isspace c \<and> c \<notin> set ''/?#@:[]'')"

definition valid_host :: "string \<Rightarrow> bool" where
  "valid_host h = (h \<noteq> [] \<and> list_all host_char h)"

text \<open>A netloc may also hold user information and a port: \<^verbatim>\<open>@\<close> and \<^verbatim>\<open>:\<close> are allowed.\<close>

definition netloc_char :: "char \<Rightarrow> bool" where
  "netloc_char c = (\<not> c0_control_or_space c \<and> \<not> py_isspace c \<and> c \<notin> set ''/?#[]'')"

definition valid_netloc :: "string \<Rightarrow> bool" where
  "valid_netloc n = (n \<noteq> [] \<and> list_all netloc_char n)"

text \<open>What follows the netloc: nothing, or a path, query or fragment that does not end in a space.\<close>

definition valid_tail :: "string \<Rightarrow> bool" where
  "valid_tail t = (t = [] \<or> (netloc_delim (hd t) \<and> \<not> py_isspace (last t)))"

definition default_port :: "string \<Rightarrow> int" where
  "default_port sch = (if py_lower sch = ''https'' then 443 else 80)"

text \<open>
  The spellings of one node address: the scheme in any letter case, the default port
  written or not, a trailing slash or not.
\<close>

definition url_spelling :: "string \<Rightarrow> string \<Rightarrow> bool \<Rightarrow> bool \<Rightarrow> string" where
  "url_spelling sch host explicit_port slash =
     sch @ ''://'' @ host @ (if explicit_port then '':'' @ show_int (default_port sch) else [])
       @ (if slash then ''/'' else [])"

text \<open>The host name of a host text: lower case up to a zone separator \<^verbatim>\<open>%\<close>.\<close>

definition host_lower :: "string \<Rightarrow> string" where
  "host_lower h = py_lower (before CHR ''%'' h) @ dropWhile (\<lambda>x. x \<noteq> CHR ''%'') h"

section \<open>Properties of the classifiers\<close>

text \<open>
  Claim C3. \<^verbatim>\<open>classify_node_host\<close> is total and its checks have the precedence
  inactivity, then offline, then version mismatch: a node not declared active gets
  (false, inactive_no_payout) whatever the other arguments are; an active node that is
  not online gets (false, investigate_offline); an active online node whose two versions
  are both non-empty and differ gets (true, pay_weekly_and_upgrade_node); every other
  active online node gets (true, pay_weekly).
\<close>

theorem classify_node_host_cases:
  "(\<not> is_active \<longrightarrow>
      classify_node_host is_active online nv netv = (False, ''inactive_no_payout'')) \<and>
   (is_active \<and> \<not> online \<longrightarrow>
      classify_node_host is_active online nv netv = (False, ''investigate_offline'')) \<and>
   (is_active \<and> online \<and> nv \<noteq> [] \<and> netv \<noteq> [] \<and> nv \<noteq> netv \<longrightarrow>
      classify_node_host is_active online nv netv = (True, ''pay_weekly_and_upgrade_node'')) \<and>
   (is_active \<and> online \<and> \<not> (nv \<noteq> [] \<and> netv \<noteq> [] \<and> nv \<noteq> netv) \<longrightarrow>
      classify_node_host is_active online nv netv = (True, ''pay_weekly''))"
  unfolding classify_node_host_def by simp

theorem classify_node_host_cases_witness:
  "classify_node_host False True ''2.1.0'' ''2.2.1'' = (False, ''inactive_no_payout'') \<and>
   classify_node_host True False ''2.2.1'' ''2.2.1'' = (False, ''investigate_offline'') \<and>
   classify_node_host True True ''2.1.0'' ''2.2.1'' = (True, ''pay_weekly_and_upgrade_node'') \<and>
   classify_node_host True True ''2.2.1'' ''2.2.1'' = (True, ''pay_weekly'') \<and>
   classify_node_host True True '''' ''2.2.1'' = (True, ''pay_weekly'')"
  using classify_node_host_cases [of False True "''2.1.0''" "''2.2.1''"]
    classify_node_host_cases [of True False "''2.2.1''" "''2.2.1''"]
    classify_node_host_cases [of True True "''2.1.0''" "''2.2.1''"]
    classify_node_host_cases [of True True "''2.2.1''" "''2.2.1''"]
    classify_node_host_cases [of True True "''''" "''2.2.1''"]
  by simp



section \<open>Properties of the miner aggregator\<close>

subsection \<open>The aggregate as a map\<close>

lemma map_of_dict_set: "map_of (dict_set k v al) = (map_of al)(k \<mapsto> v)"
  by (induction al) (auto simp: fun_eq_iff)

lemma keys_dict_set:
  "map fst (dict_set k v al) = (if k \<in> fst ` set al then map fst al else map fst al @ [k])"
  by (induction al) (fastforce+)

lemma distinct_keys_dict_set: "distinct (map fst al) \<Longrightarrow> distinct (map fst (dict_set k v al))"
  by (simp add: keys_dict_set)

lemma map_of_aggregate_row:
  "map_of (aggregate_row n row agg) m =
     (if miner_id_of row = m \<and> m \<noteq> [] then Some (merge_row n row (map_of agg m)) else map_of agg m)"
  by (simp add: aggregate_row_def merge_row_def Let_def map_of_dict_set split: option.splits)

lemma distinct_aggregate_row:
  "distinct (map fst agg) \<Longrightarrow> distinct (map fst (aggregate_row n row agg))"
  by (simp add: aggregate_row_def Let_def distinct_keys_dict_set split: option.splits)

lemma aggregate_miners_flat:
  "aggregate_miners nm = fold (\<lambda>(n, row). aggregate_row n row) (sightings_of nm) []"
proof -
  have "fold (\<lambda>(node_url, rows) aggregate. fold (aggregate_row node_url) rows aggregate) nm agg =
        fold (\<lambda>(n, row). aggregate_row n row) (sightings_of nm) agg" for agg
    by (induction nm arbitrary: agg) (auto simp: sightings_of_def fold_map comp_def)
  then show ?thesis by (simp add: aggregate_miners_def)
qed

lemma finite_positive_attests: "finite (positive_attests m xs)"
proof -
  have "positive_attests m xs \<subseteq> (\<lambda>(n, row). int_field_or_zero (s_last_attest row)) ` set xs"
    by (auto simp: positive_attests_def image_iff split_def)
  then show ?thesis by (rule finite_subset) simp
qed

lemma positive_attests_pos: "t \<in> positive_attests m xs \<Longrightarrow> 0 < t"
  by (simp add: positive_attests_def)

lemma positive_attests_snoc:
  "positive_attests m (xs @ [(n, row)]) =
     (if miner_id_of row = m \<and> 0 < int_field_or_zero (s_last_attest row)
      then insert (int_field_or_zero (s_last_attest row)) (positive_attests m xs)
      else positive_attests m xs)"
  by (auto simp: positive_attests_def)

lemma contributing_nodes_snoc:
  "contributing_nodes m (xs @ [(n, row)]) =
     (if miner_id_of row = m then insert n (contributing_nodes m xs) else contributing_nodes m xs)"
  by (auto simp: contributing_nodes_def)

lemma positive_attests_empty:
  "contributing_nodes m xs = {} \<Longrightarrow> positive_attests m xs = {}"
  by (auto simp: contributing_nodes_def positive_attests_def)

lemma merge_last_attest:
  assumes "finite P" and "\<forall>t\<in>P. 0 < t" and "cur = (if P = {} then None else Some (Max P))"
  shows "(if la \<noteq> 0 \<and> (case cur of None \<Rightarrow> 0 | Some t \<Rightarrow> t) < la then Some la else cur) =
         (if 0 < la then Some (Max (insert la P)) else cur)"
proof (cases "P = {}")
  case True
  with assms show ?thesis by auto
next
  case False
  define M where "M = Max P"
  have "Max P \<in> P" using assms False by (simp add: Max_in)
  then have M: "0 < M" using assms by (auto simp: M_def)
  have I: "Max (insert la P) = max la M"
    using assms False by (simp add: Max_insert M_def)
  have cur: "cur = Some M" using assms False by (simp add: M_def)
  have "(if la \<noteq> 0 \<and> M < la then Some la else Some M) = (if 0 < la then Some (max la M) else Some M)"
    using M by (auto simp: max_def)
  then show ?thesis unfolding cur I by simp
qed

lemma merge_row_view:
  assumes "miner_view_ok m xs ro" and "miner_id_of row = m" and "m \<noteq> []"
  shows "miner_view_ok m (xs @ [(n, row)]) (Some (merge_row n row ro))"
proof (cases ro)
  case None
  with assms have "positive_attests m xs = {}"
    by (simp add: miner_view_ok_def positive_attests_empty)
  with None assms show ?thesis
    by (simp add: miner_view_ok_def merge_row_def max_attest_def positive_attests_snoc
        contributing_nodes_snoc)
next
  case (Some e)
  let ?la = "int_field_or_zero (s_last_attest row)"
  let ?P = "positive_attests m xs"
  from Some assms have e: "miner e = m" "last_attest e = max_attest m xs"
    "set (nodes_seen e) = contributing_nodes m xs" "distinct (nodes_seen e)" "nodes_seen e \<noteq> []"
    by (simp_all add: miner_view_ok_def)
  have la: "(if ?la \<noteq> 0 \<and> (case last_attest e of None \<Rightarrow> 0 | Some t \<Rightarrow> t) < ?la
             then Some ?la else last_attest e) =
            (if 0 < ?la then Some (Max (insert ?la ?P)) else last_attest e)"
    by (rule merge_last_attest [where P = "?P"])
       (simp_all add: finite_positive_attests positive_attests_pos e max_attest_def)
  have snocP: "positive_attests m (xs @ [(n, row)]) = (if 0 < ?la then insert ?la ?P else ?P)"
    using assms(2) by (simp add: positive_attests_snoc)
  have "last_attest (merge_row n row (Some e)) =
          (if ?la \<noteq> 0 \<and> (case last_attest e of None \<Rightarrow> 0 | Some t \<Rightarrow> t) < ?la
           then Some ?la else last_attest e)"
    by (simp add: merge_row_def Let_def)
  also have "\<dots> = (if 0 < ?la then Some (Max (insert ?la ?P)) else last_attest e)"
    by (rule la)
  also have "\<dots> = max_attest m (xs @ [(n, row)])"
  proof (cases "0 < ?la")
    case True
    then show ?thesis unfolding max_attest_def snocP by simp
  next
    case False
    then show ?thesis unfolding max_attest_def snocP using e(2) by (simp add: max_attest_def)
  qed
  finally have la': "last_attest (merge_row n row (Some e)) = max_attest m (xs @ [(n, row)])" .
  have ns: "set (nodes_seen (merge_row n row (Some e))) = contributing_nodes m (xs @ [(n, row)])"
    "distinct (nodes_seen (merge_row n row (Some e)))" "nodes_seen (merge_row n row (Some e)) \<noteq> []"
    "miner (merge_row n row (Some e)) = m"
    using e assms(2) by (auto simp: merge_row_def Let_def contributing_nodes_snoc)
  show ?thesis using la' ns assms(3) Some by (simp add: miner_view_ok_def)
qed

lemma other_row_view:
  assumes "miner_view_ok m xs ro" and "miner_id_of row \<noteq> m \<or> m = []"
  shows "miner_view_ok m (xs @ [(n, row)]) ro"
  using assms
  by (auto simp: miner_view_ok_def max_attest_def positive_attests_snoc contributing_nodes_snoc
      split: option.splits)

lemma fold_aggregate_view:
  "miner_view_ok m xs (map_of (fold (\<lambda>(n, row). aggregate_row n row) xs []) m)"
proof (induction xs rule: rev_induct)
  case Nil
  show ?case by (simp add: miner_view_ok_def contributing_nodes_def)
next
  case (snoc x xs)
  obtain n row where x: "x = (n, row)" by (cases x)
  show ?case
  proof (cases "miner_id_of row = m \<and> m \<noteq> []")
    case True
    then show ?thesis
      using merge_row_view [OF snoc, of row n] by (simp add: x map_of_aggregate_row)
  next
    case False
    then show ?thesis
      using other_row_view [OF snoc, of row n] by (auto simp add: x map_of_aggregate_row)
  qed
qed

lemma distinct_fold_aggregate:
  "distinct (map fst agg) \<Longrightarrow> distinct (map fst (fold (\<lambda>(n, row). aggregate_row n row) xs agg))"
  by (induction xs arbitrary: agg) (auto simp: distinct_aggregate_row)

lemma positive_attests_cong: "set xs = set ys \<Longrightarrow> positive_attests m xs = positive_attests m ys"
  by (simp add: positive_attests_def)

lemma contributing_nodes_cong: "set xs = set ys \<Longrightarrow> contributing_nodes m xs = contributing_nodes m ys"
  by (simp add: contributing_nodes_def)

lemma miner_view_ok_cong:
  assumes "set xs = set ys"
  shows "miner_view_ok m xs ro = miner_view_ok m ys ro"
proof -
  have "positive_attests m xs = positive_attests m ys" "contributing_nodes m xs = contributing_nodes m ys"
    using assms by (simp_all add: positive_attests_def contributing_nodes_def)
  then show ?thesis by (cases ro) (simp_all add: miner_view_ok_def max_attest_def)
qed

lemma miner_view_unique:
  assumes "miner_view_ok m xs a" and "miner_view_ok m xs b"
  shows "map_option last_attest a = map_option last_attest b \<and>
         map_option (\<lambda>r. set (nodes_seen r)) a = map_option (\<lambda>r. set (nodes_seen r)) b"
  using assms by (cases a; cases b) (auto simp: miner_view_ok_def)

lemma sightings_of_append: "sightings_of (a @ b) = sightings_of a @ sightings_of b"
  by (simp add: sightings_of_def)

lemma max_attest_mono: "attest_le (max_attest m xs) (max_attest m (xs @ ys))"
proof (cases "positive_attests m xs = {}")
  case True
  then show ?thesis by (simp add: attest_le_def max_attest_def)
next
  case False
  have sub: "positive_attests m xs \<subseteq> positive_attests m (xs @ ys)"
    by (auto simp: positive_attests_def)
  then have ne: "positive_attests m (xs @ ys) \<noteq> {}" using False by auto
  have "Max (positive_attests m xs) \<le> Max (positive_attests m (xs @ ys))"
    by (rule Max_mono [OF sub False finite_positive_attests])
  then show ?thesis using False ne by (simp add: attest_le_def max_attest_def)
qed

lemma view_stays_present:
  assumes "miner_view_ok m xs (Some r)" and "miner_view_ok m (xs @ ys) ro"
  shows "\<exists>r'. ro = Some r' \<and> attest_le (last_attest r) (last_attest r')"
proof -
  from assms(1) have ne: "contributing_nodes m xs \<noteq> {}" and m: "m \<noteq> []"
    and la: "last_attest r = max_attest m xs"
    by (auto simp: miner_view_ok_def)
  have "contributing_nodes m xs \<subseteq> contributing_nodes m (xs @ ys)"
    by (auto simp: contributing_nodes_def)
  with ne have "contributing_nodes m (xs @ ys) \<noteq> {}" by auto
  with assms(2) m obtain r' where r': "ro = Some r'" "last_attest r' = max_attest m (xs @ ys)"
    by (cases ro) (auto simp: miner_view_ok_def)
  then show ?thesis using la max_attest_mono [of m xs ys] by simp
qed

subsection \<open>Order independence and the record invariant\<close>

text \<open>
  Claim C1, as amended. Let two node-to-sightings mappings hold the same sightings, in any
  order of nodes and of rows. Then for every miner both aggregations give the same
  \<^verbatim>\<open>last_attest\<close> and the same set of \<^verbatim>\<open>nodes_seen\<close>. A miner has a record exactly
  when its id is not empty and some sighting names it; the record's \<^verbatim>\<open>last_attest\<close> is
  the maximum of the positive sighting timestamps (absent when none is positive), its
  \<^verbatim>\<open>nodes_seen\<close> holds each contributing node exactly once, and folding in more
  sightings never lowers \<^verbatim>\<open>last_attest\<close>. The descriptive fields and the order of
  \<^verbatim>\<open>nodes_seen\<close> follow the first sighting and the iteration order.
\<close>

theorem aggregate_miners_order_independent:
  assumes "mset (sightings_of nm1) = mset (sightings_of nm2)"
  shows "map_option last_attest (map_of (aggregate_miners nm1) m) =
           map_option last_attest (map_of (aggregate_miners nm2) m) \<and>
         map_option (\<lambda>r. set (nodes_seen r)) (map_of (aggregate_miners nm1) m) =
           map_option (\<lambda>r. set (nodes_seen r)) (map_of (aggregate_miners nm2) m) \<and>
         ((map_of (aggregate_miners nm1) m = None) =
            (m = [] \<or> contributing_nodes m (sightings_of nm1) = {})) \<and>
         (\<forall>r. map_of (aggregate_miners nm1) m = Some r \<longrightarrow>
            last_attest r = max_attest m (sightings_of nm1) \<and>
            set (nodes_seen r) = contributing_nodes m (sightings_of nm1) \<and>
            distinct (nodes_seen r) \<and>
            (\<forall>more. \<exists>r'. map_of (aggregate_miners (nm1 @ more)) m = Some r' \<and>
                attest_le (last_attest r) (last_attest r')))"
proof -
  let ?A = "\<lambda>nm. map_of (aggregate_miners nm) m"
  have v: "miner_view_ok m (sightings_of nm) (?A nm)" for nm
    by (simp add: aggregate_miners_flat fold_aggregate_view)
  from assms have s: "set (sightings_of nm1) = set (sightings_of nm2)" by (rule mset_eq_setD)
  have "miner_view_ok m (sightings_of nm1) (?A nm2)"
    using v [of nm2] miner_view_ok_cong [OF s, of m "?A nm2"] by simp
  with v [of nm1]
  have 1: "map_option last_attest (?A nm1) = map_option last_attest (?A nm2) \<and>
         map_option (\<lambda>r. set (nodes_seen r)) (?A nm1) = map_option (\<lambda>r. set (nodes_seen r)) (?A nm2)"
    by (rule miner_view_unique)
  have 2: "(?A nm1 = None) = (m = [] \<or> contributing_nodes m (sightings_of nm1) = {})"
    using v [of nm1] by (cases "?A nm1") (auto simp: miner_view_ok_def)
  have 3: "last_attest r = max_attest m (sightings_of nm1) \<and>
            set (nodes_seen r) = contributing_nodes m (sightings_of nm1) \<and>
            distinct (nodes_seen r) \<and>
            (\<forall>more. \<exists>r'. ?A (nm1 @ more) = Some r' \<and> attest_le (last_attest r) (last_attest r'))"
    if r: "?A nm1 = Some r" for r
  proof -
    from v [of nm1] r have vr: "miner_view_ok m (sightings_of nm1) (Some r)" by simp
    have "\<exists>r'. ?A (nm1 @ more) = Some r' \<and> attest_le (last_attest r) (last_attest r')" for more
    proof -
      have "miner_view_ok m (sightings_of nm1 @ sightings_of more) (?A (nm1 @ more))"
        using v [of "nm1 @ more"] by (simp only: sightings_of_append)
      with vr show ?thesis by (rule view_stays_present)
    qed
    then show ?thesis using vr by (simp add: miner_view_ok_def)
  qed
  have 4: "\<forall>r. ?A nm1 = Some r \<longrightarrow>
            last_attest r = max_attest m (sightings_of nm1) \<and>
            set (nodes_seen r) = contributing_nodes m (sightings_of nm1) \<and>
            distinct (nodes_seen r) \<and>
            (\<forall>more. \<exists>r'. ?A (nm1 @ more) = Some r' \<and> attest_le (last_attest r) (last_attest r'))"
    using 3 by blast
  show ?thesis
    by (intro conjI) (rule 1 [THEN conjunct1], rule 1 [THEN conjunct2], rule 2, rule 4)
qed

theorem aggregate_miners_order_independent_witness:
  "mset (sightings_of [(''n1'', [sighting_at ''m1'' (Val 5) ''x86'']), (''n2'', [sighting_at ''m1'' (Val 9) ''arm''])]) =
   mset (sightings_of [(''n2'', [sighting_at ''m1'' (Val 9) ''arm'']), (''n1'', [sighting_at ''m1'' (Val 5) ''x86''])]) \<and>
   map_option last_attest (map_of (aggregate_miners
       [(''n1'', [sighting_at ''m1'' (Val 5) ''x86'']), (''n2'', [sighting_at ''m1'' (Val 9) ''arm''])]) ''m1'') =
   map_option last_attest (map_of (aggregate_miners
       [(''n2'', [sighting_at ''m1'' (Val 9) ''arm'']), (''n1'', [sighting_at ''m1'' (Val 5) ''x86''])]) ''m1'') \<and>
   map_option last_attest (map_of (aggregate_miners
       [(''n1'', [sighting_at ''m1'' (Val 5) ''x86'']), (''n2'', [sighting_at ''m1'' (Val 9) ''arm''])]) ''m1'') = Some (Some 9)"
proof -
  have h: "mset (sightings_of [(''n1'', [sighting_at ''m1'' (Val 5) ''x86'']), (''n2'', [sighting_at ''m1'' (Val 9) ''arm''])]) =
   mset (sightings_of [(''n2'', [sighting_at ''m1'' (Val 9) ''arm'']), (''n1'', [sighting_at ''m1'' (Val 5) ''x86''])])"
    by (simp add: sightings_of_def add_mset_commute)
  have e: "map_option last_attest (map_of (aggregate_miners
       [(''n1'', [sighting_at ''m1'' (Val 5) ''x86'']), (''n2'', [sighting_at ''m1'' (Val 9) ''arm''])]) ''m1'') = Some (Some 9)"
    by code_simp
  from aggregate_miners_order_independent [OF h, of "''m1''"] h e show ?thesis by simp
qed

text \<open>
  The record as a whole does depend on the order: with two nodes reporting the same miner
  with different device families, swapping the nodes changes \<^verbatim>\<open>device_family\<close> and the
  order of \<^verbatim>\<open>nodes_seen\<close>.
\<close>

theorem aggregate_miners_record_order_counterexample:
  "mset (sightings_of [(''n1'', [sighting_at ''m1'' (Val 5) ''x86'']), (''n2'', [sighting_at ''m1'' (Val 9) ''arm''])]) =
   mset (sightings_of [(''n2'', [sighting_at ''m1'' (Val 9) ''arm'']), (''n1'', [sighting_at ''m1'' (Val 5) ''x86''])]) \<and>
   map_option device_family (map_of (aggregate_miners
       [(''n1'', [sighting_at ''m1'' (Val 5) ''x86'']), (''n2'', [sighting_at ''m1'' (Val 9) ''arm''])]) ''m1'') = Some (Some ''x86'') \<and>
   map_option device_family (map_of (aggregate_miners
       [(''n2'', [sighting_at ''m1'' (Val 9) ''arm'']), (''n1'', [sighting_at ''m1'' (Val 5) ''x86''])]) ''m1'') = Some (Some ''arm'') \<and>
   map_option nodes_seen (map_of (aggregate_miners
       [(''n1'', [sighting_at ''m1'' (Val 5) ''x86'']), (''n2'', [sighting_at ''m1'' (Val 9) ''arm''])]) ''m1'') = Some [''n1'', ''n2''] \<and>
   map_option nodes_seen (map_of (aggregate_miners
       [(''n2'', [sighting_at ''m1'' (Val 9) ''arm'']), (''n1'', [sighting_at ''m1'' (Val 5) ''x86''])]) ''m1'') = Some [''n2'', ''n1''] \<and>
   map_of (aggregate_miners
       [(''n1'', [sighting_at ''m1'' (Val 5) ''x86'']), (''n2'', [sighting_at ''m1'' (Val 9) ''arm''])]) ''m1'' \<noteq>
   map_of (aggregate_miners
       [(''n2'', [sighting_at ''m1'' (Val 9) ''arm'']), (''n1'', [sighting_at ''m1'' (Val 5) ''x86''])]) ''m1''"
proof -
  have h: "mset (sightings_of [(''n1'', [sighting_at ''m1'' (Val 5) ''x86'']), (''n2'', [sighting_at ''m1'' (Val 9) ''arm''])]) =
   mset (sightings_of [(''n2'', [sighting_at ''m1'' (Val 9) ''arm'']), (''n1'', [sighting_at ''m1'' (Val 5) ''x86''])])"
    by (simp add: sightings_of_def add_mset_commute)
  have a: "map_option device_family (map_of (aggregate_miners
       [(''n1'', [sighting_at ''m1'' (Val 5) ''x86'']), (''n2'', [sighting_at ''m1'' (Val 9) ''arm''])]) ''m1'') = Some (Some ''x86'')"
    by code_simp
  have b: "map_option device_family (map_of (aggregate_miners
       [(''n2'', [sighting_at ''m1'' (Val 9) ''arm'']), (''n1'', [sighting_at ''m1'' (Val 5) ''x86''])]) ''m1'') = Some (Some ''arm'')"
    by code_simp
  have c: "map_option nodes_seen (map_of (aggregate_miners
       [(''n1'', [sighting_at ''m1'' (Val 5) ''x86'']), (''n2'', [sighting_at ''m1'' (Val 9) ''arm''])]) ''m1'') = Some [''n1'', ''n2'']"
    by code_simp
  have d: "map_option nodes_seen (map_of (aggregate_miners
       [(''n2'', [sighting_at ''m1'' (Val 9) ''arm'']), (''n1'', [sighting_at ''m1'' (Val 5) ''x86''])]) ''m1'') = Some [''n2'', ''n1'']"
    by code_simp
  have "map_of (aggregate_miners
       [(''n1'', [sighting_at ''m1'' (Val 5) ''x86'']), (''n2'', [sighting_at ''m1'' (Val 9) ''arm''])]) ''m1'' \<noteq>
   map_of (aggregate_miners
       [(''n2'', [sighting_at ''m1'' (Val 9) ''arm'']), (''n1'', [sighting_at ''m1'' (Val 5) ''x86''])]) ''m1''"
    using a b by auto
  with h a b c d show ?thesis by simp
qed

text \<open>
  Claim C10. Every record the aggregator produces has a non-empty miner id equal to its
  key, at least one node in \<^verbatim>\<open>nodes_seen\<close>, and a \<^verbatim>\<open>last_attest\<close> that is absent or
  strictly positive; the key determines the record.
\<close>

theorem aggregate_miners_record_invariant:
  assumes "(k, r) \<in> set (aggregate_miners node_miners)"
  shows "k \<noteq> [] \<and> miner r = k \<and> nodes_seen r \<noteq> [] \<and>
     (last_attest r = None \<or> (\<exists>t. last_attest r = Some t \<and> 0 < t)) \<and>
     map_of (aggregate_miners node_miners) k = Some r"
proof -
  let ?xs = "sightings_of node_miners"
  have "distinct (map fst (aggregate_miners node_miners))"
    by (simp add: aggregate_miners_flat distinct_fold_aggregate)
  with assms have k: "map_of (aggregate_miners node_miners) k = Some r" by simp
  have "miner_view_ok k ?xs (map_of (aggregate_miners node_miners) k)"
    by (simp add: aggregate_miners_flat fold_aggregate_view)
  with k have v: "k \<noteq> []" "miner r = k" "nodes_seen r \<noteq> []" "last_attest r = max_attest k ?xs"
    by (simp_all add: miner_view_ok_def)
  have "last_attest r = None \<or> (\<exists>t. last_attest r = Some t \<and> 0 < t)"
  proof (cases "positive_attests k ?xs = {}")
    case True
    then show ?thesis using v(4) by (simp add: max_attest_def)
  next
    case False
    then have "Max (positive_attests k ?xs) \<in> positive_attests k ?xs"
      by (simp add: Max_in finite_positive_attests)
    then have "0 < Max (positive_attests k ?xs)" by (rule positive_attests_pos)
    then show ?thesis using v(4) False by (simp add: max_attest_def)
  qed
  with v k show ?thesis by simp
qed

theorem aggregate_miners_record_invariant_witness:
  "(''m1'', \<lparr>miner = ''m1'', last_attest = None, first_attest = None, device_family = Some ''x86'',
      device_arch = None, hardware_type = None, entropy_score = None,
      antiquity_multiplier = None, nodes_seen = [''n1'']\<rparr>)
     \<in> set (aggregate_miners [(''n1'', [sighting_at '' m1 '' (Val (- 7)) ''x86'', sighting_at ''m1'' Null ''arm'',
          sighting_at ''  '' (Val 3) ''ppc''])]) \<and>
   map_of (aggregate_miners [(''n1'', [sighting_at '' m1 '' (Val (- 7)) ''x86'', sighting_at ''m1'' Null ''arm'',
          sighting_at ''  '' (Val 3) ''ppc''])]) ''m1'' =
     Some \<lparr>miner = ''m1'', last_attest = None, first_attest = None, device_family = Some ''x86'',
      device_arch = None, hardware_type = None, entropy_score = None,
      antiquity_multiplier = None, nodes_seen = [''n1'']\<rparr>"
proof -
  have e: "aggregate_miners [(''n1'', [sighting_at '' m1 '' (Val (- 7)) ''x86'', sighting_at ''m1'' Null ''arm'',
          sighting_at ''  '' (Val 3) ''ppc''])] =
      [(''m1'', \<lparr>miner = ''m1'', last_attest = None, first_attest = None, device_family = Some ''x86'',
      device_arch = None, hardware_type = None, entropy_score = None,
      antiquity_multiplier = None, nodes_seen = [''n1'']\<rparr>)]"
    by code_simp
  then have h: "(''m1'', \<lparr>miner = ''m1'', last_attest = None, first_attest = None, device_family = Some ''x86'',
      device_arch = None, hardware_type = None, entropy_score = None,
      antiquity_multiplier = None, nodes_seen = [''n1'']\<rparr>)
     \<in> set (aggregate_miners [(''n1'', [sighting_at '' m1 '' (Val (- 7)) ''x86'', sighting_at ''m1'' Null ''arm'',
          sighting_at ''  '' (Val 3) ''ppc''])])"
    by simp
  from aggregate_miners_record_invariant [OF h] h show ?thesis by simp
qed

text \<open>
  Claim C9. For every finite set of expected ids and every set of observed ids, the missing
  ids are exactly the expected ids that were not observed, in ascending order without
  repetition, and the gap row of each carries state not_visible_in_public_api,
  weekly_eligible false and action check_node_url_then_upgrade_miner.
\<close>

theorem missing_expected_rows_spec:
  assumes "finite expected"
  shows "set (missing_expected expected observed) = expected - observed \<and>
         sorted (missing_expected expected observed) \<and>
         distinct (missing_expected expected observed) \<and>
         map g_miner (missing_expected_rows expected observed) = missing_expected expected observed \<and>
         (\<forall>row \<in> set (missing_expected_rows expected observed).
            g_state row = ''not_visible_in_public_api'' \<and> g_weekly_eligible row = False \<and>
            g_suggested_action row = ''check_node_url_then_upgrade_miner'')"
proof -
  have f: "finite (expected - observed)" using assms by simp
  have "map g_miner (missing_expected_rows expected observed) = missing_expected expected observed"
    by (simp add: missing_expected_rows_def comp_def)
  moreover have "\<forall>row \<in> set (missing_expected_rows expected observed).
            g_state row = ''not_visible_in_public_api'' \<and> g_weekly_eligible row = False \<and>
            g_suggested_action row = ''check_node_url_then_upgrade_miner''"
    by (auto simp: missing_expected_rows_def)
  ultimately show ?thesis using f by (simp add: missing_expected_def)
qed

theorem missing_expected_rows_spec_witness:
  "finite {''gamma'', ''alpha'', ''beta''} \<and>
   missing_expected {''gamma'', ''alpha'', ''beta''} {''alpha''} = [''beta'', ''gamma''] \<and>
   set (missing_expected {''gamma'', ''alpha'', ''beta''} {''alpha''}) =
     {''gamma'', ''alpha'', ''beta''} - {''alpha''} \<and>
   sorted (missing_expected {''gamma'', ''alpha'', ''beta''} {''alpha''}) \<and>
   missing_expected_rows {''gamma'', ''alpha'', ''beta''} {''alpha''} =
     [\<lparr>g_miner = ''beta'', g_state = ''not_visible_in_public_api'', g_weekly_eligible = False,
       g_suggested_action = ''check_node_url_then_upgrade_miner''\<rparr>,
      \<lparr>g_miner = ''gamma'', g_state = ''not_visible_in_public_api'', g_weekly_eligible = False,
       g_suggested_action = ''check_node_url_then_upgrade_miner''\<rparr>]"
proof -
  have f: "finite {''gamma'', ''alpha'', ''beta''}" by simp
  have e: "missing_expected {''gamma'', ''alpha'', ''beta''} {''alpha''} = [''beta'', ''gamma'']"
    by code_simp
  have r: "missing_expected_rows {''gamma'', ''alpha'', ''beta''} {''alpha''} =
     [\<lparr>g_miner = ''beta'', g_state = ''not_visible_in_public_api'', g_weekly_eligible = False,
       g_suggested_action = ''check_node_url_then_upgrade_miner''\<rparr>,
      \<lparr>g_miner = ''gamma'', g_state = ''not_visible_in_public_api'', g_weekly_eligible = False,
       g_suggested_action = ''check_node_url_then_upgrade_miner''\<rparr>]"
    by (simp add: missing_expected_rows_def e)
  from missing_expected_rows_spec [OF f, of "{''alpha''}"]
  have "set (missing_expected {''gamma'', ''alpha'', ''beta''} {''alpha''}) =
          {''gamma'', ''alpha'', ''beta''} - {''alpha''}"
    and "sorted (missing_expected {''gamma'', ''alpha'', ''beta''} {''alpha''})"
    by simp_all
  with f e r show ?thesis by simp
qed

section \<open>Properties of the node scan\<close>

lemma err_bind_Inr: "err_bind m f = Inr y \<Longrightarrow> \<exists>x. m = Inr x \<and> f x = Inr y"
  by (cases m) (simp_all add: err_bind_def)

lemma scan_node_appends:
  assumes "scan_node ok seed nv registry_map fetch_health fetch_miners node_url st = Inr st'"
  shows "\<exists>row. st_node_rows st' = st_node_rows st @ [row] \<and> nr_url row = node_url \<and>
           nr_online row = (is_dict (fst (fetch_health node_url)) \<and> snd (fetch_health node_url) = None)"
proof -
  from assms obtain key where "node_identity ok node_url = Inr key" 
    by (auto simp: scan_node_def dest: err_bind_Inr)
  with assms show ?thesis
    by (auto simp: scan_node_def err_bind_def Let_def split_def)
qed

lemma scan_nodes_rows:
  assumes "scan_nodes ok seed nv registry_map fetch_health fetch_miners node_urls st = Inr st'"
  shows "\<exists>rows. st_node_rows st' = st_node_rows st @ rows \<and> map nr_url rows = node_urls \<and>
           map nr_online rows =
             map (\<lambda>u. is_dict (fst (fetch_health u)) \<and> snd (fetch_health u) = None) node_urls"
  using assms
proof (induction node_urls arbitrary: st)
  case Nil
  then show ?case by simp
next
  case (Cons u us)
  from Cons.prems obtain st1 where
    1: "scan_node ok seed nv registry_map fetch_health fetch_miners u st = Inr st1" and
    2: "scan_nodes ok seed nv registry_map fetch_health fetch_miners us st1 = Inr st'"
    by (auto dest: err_bind_Inr)
  from scan_node_appends [OF 1] obtain row where
    row: "st_node_rows st1 = st_node_rows st @ [row]" "nr_url row = u"
      "nr_online row = (is_dict (fst (fetch_health u)) \<and> snd (fetch_health u) = None)"
    by blast
  from Cons.IH [OF 2] obtain rows where
    rows: "st_node_rows st' = st_node_rows st1 @ rows" "map nr_url rows = us"
      "map nr_online rows = map (\<lambda>u. is_dict (fst (fetch_health u)) \<and> snd (fetch_health u) = None) us"
    by blast
  show ?case
    by (rule exI [of _ "row # rows"]) (simp add: row rows)
qed

text \<open>
  Claim C6, as amended. For every queried node the row's online flag is true if and only
  if the health payload is a JSON object and the health fetch reported no error. The rows
  of the scan are appended in the order of the candidates, one per candidate.
\<close>

theorem scan_nodes_online:
  assumes "scan_nodes ok seed nv registry_map fetch_health fetch_miners node_urls st = Inr st'"
  shows "take (length (st_node_rows st)) (st_node_rows st') = st_node_rows st \<and>
         map nr_url (drop (length (st_node_rows st)) (st_node_rows st')) = node_urls \<and>
         map nr_online (drop (length (st_node_rows st)) (st_node_rows st')) =
           map (\<lambda>u. is_dict (fst (fetch_health u)) \<and> snd (fetch_health u) = None) node_urls"
proof -
  from scan_nodes_rows [OF assms] obtain rows where
    "st_node_rows st' = st_node_rows st @ rows" "map nr_url rows = node_urls"
    "map nr_online rows =
       map (\<lambda>u. is_dict (fst (fetch_health u)) \<and> snd (fetch_health u) = None) node_urls"
    by blast
  then show ?thesis by simp
qed

theorem scan_nodes_online_witness:
  "scan_nodes (\<lambda>_. True) ''https://a.example'' (Some ''2.2.1'') Map.empty
     (\<lambda>u. if u = ''https://a.example''
           then (JDict \<lparr>h_ok = Val True, h_version = Val ''2.2.1'', h_uptime_s = Absent\<rparr>, None)
           else (JOther, Some ''timeout''))
     (\<lambda>u. (JList [], None)) [''https://a.example'', ''https://b.example'']
     \<lparr>st_node_rows = [], st_node_miners = [], st_version_mismatch = []\<rparr> =
   Inr \<lparr>st_node_rows =
        [\<lparr>nr_node_id = ''a.example:443'', nr_name = ''a.example:443'', nr_wallet = None,
          nr_url = ''https://a.example'', nr_is_active = True, nr_online = True,
          nr_health_ok = True, nr_version = ''2.2.1'', nr_uptime_s = None,
          nr_payout_eligible = True, nr_suggested_action = ''pay_weekly'',
          nr_health_error = None, nr_miners_error = None\<rparr>,
         \<lparr>nr_node_id = ''b.example:443'', nr_name = ''b.example:443'', nr_wallet = None,
          nr_url = ''https://b.example'', nr_is_active = False, nr_online = False,
          nr_health_ok = False, nr_version = [], nr_uptime_s = None,
          nr_payout_eligible = False, nr_suggested_action = ''inactive_no_payout'',
          nr_health_error = Some ''timeout'', nr_miners_error = None\<rparr>],
      st_node_miners = [(''https://a.example'', []), (''https://b.example'', [])],
      st_version_mismatch = []\<rparr> \<and>
   map (\<lambda>u. is_dict (fst ((\<lambda>u. if u = ''https://a.example''
           then (JDict \<lparr>h_ok = Val True, h_version = Val ''2.2.1'', h_uptime_s = Absent\<rparr>, None)
           else (JOther, Some ''timeout'')) u)) \<and>
         snd ((\<lambda>u. if u = ''https://a.example''
           then (JDict \<lparr>h_ok = Val True, h_version = Val ''2.2.1'', h_uptime_s = Absent\<rparr>, None)
           else (JOther, Some ''timeout'')) u) = None)
     [''https://a.example'', ''https://b.example''] = [True, False]"
proof -
  let ?fh = "\<lambda>u. if u = ''https://a.example''
           then (JDict \<lparr>h_ok = Val True, h_version = Val ''2.2.1'', h_uptime_s = Absent\<rparr>, None)
           else (JOther, Some ''timeout'')"
  have e: "scan_nodes (\<lambda>_. True) ''https://a.example'' (Some ''2.2.1'') Map.empty ?fh
     (\<lambda>u. (JList [], None)) [''https://a.example'', ''https://b.example'']
     \<lparr>st_node_rows = [], st_node_miners = [], st_version_mismatch = []\<rparr> =
   Inr \<lparr>st_node_rows =
        [\<lparr>nr_node_id = ''a.example:443'', nr_name = ''a.example:443'', nr_wallet = None,
          nr_url = ''https://a.example'', nr_is_active = True, nr_online = True,
          nr_health_ok = True, nr_version = ''2.2.1'', nr_uptime_s = None,
          nr_payout_eligible = True, nr_suggested_action = ''pay_weekly'',
          nr_health_error = None, nr_miners_error = None\<rparr>,
         \<lparr>nr_node_id = ''b.example:443'', nr_name = ''b.example:443'', nr_wallet = None,
          nr_url = ''https://b.example'', nr_is_active = False, nr_online = False,
          nr_health_ok = False, nr_version = [], nr_uptime_s = None,
          nr_payout_eligible = False, nr_suggested_action = ''inactive_no_payout'',
          nr_health_error = Some ''timeout'', nr_miners_error = None\<rparr>],
      st_node_miners = [(''https://a.example'', []), (''https://b.example'', [])],
      st_version_mismatch = []\<rparr>"
    by code_simp
  from scan_nodes_online [OF e] e show ?thesis by simp
qed

text \<open>
  A health endpoint that answers with valid JSON that is not an object (here an empty
  array) and no fetch error is reported offline.
\<close>

theorem online_requires_object_counterexample:
  "scan_nodes (\<lambda>_. True) ''https://a.example'' (Some ''2.2.1'') Map.empty
     (\<lambda>u. (JList [], None)) (\<lambda>u. (JList [], None)) [''https://a.example'']
     \<lparr>st_node_rows = [], st_node_miners = [], st_version_mismatch = []\<rparr> =
   Inr \<lparr>st_node_rows =
        [\<lparr>nr_node_id = ''a.example:443'', nr_name = ''a.example:443'', nr_wallet = None,
          nr_url = ''https://a.example'', nr_is_active = True, nr_online = False,
          nr_health_ok = False, nr_version = [], nr_uptime_s = None,
          nr_payout_eligible = False, nr_suggested_action = ''investigate_offline'',
          nr_health_error = None, nr_miners_error = None\<rparr>],
      st_node_miners = [(''https://a.example'', [])],
      st_version_mismatch = []\<rparr>"
  by code_simp

text \<open>
  Claim C2 fails on the code for a registry row whose \<^verbatim>\<open>url\<close> is \<^verbatim>\<open>null\<close>:
  \<^verbatim>\<open>str(None)\<close> is the text \<^verbatim>\<open>None\<close>, which normalizes to the non-empty
  \<^verbatim>\<open>https://None\<close>; the row is not a candidate, because \<^verbatim>\<open>r.get("url")\<close> is false,
  and it gets no synthetic row, because its normalized URL is not empty. With the seed and
  one such registry row, the node rows hold the seed alone.
\<close>

theorem build_node_rows_drops_null_url_row:
  "build_node_rows (\<lambda>_. True) ''https://50.28.86.131'' []
     (\<lambda>u. (JDict \<lparr>h_ok = Val True, h_version = Val ''2.2.1'', h_uptime_s = Absent\<rparr>, None))
     (\<lambda>u. (NodesDict (Val (JList [JDict \<lparr>r_url = Null, r_node_id = Val ''node-2'',
               r_name = Val ''Node Two'', r_wallet = Val ''RTC2'', r_is_active = Val True\<rparr>])), None))
     (\<lambda>u. (JList [], None)) =
   Inr \<lparr>st_node_rows =
        [\<lparr>nr_node_id = ''50.28.86.131:443'', nr_name = ''50.28.86.131:443'', nr_wallet = None,
          nr_url = ''https://50.28.86.131'', nr_is_active = True, nr_online = True,
          nr_health_ok = True, nr_version = ''2.2.1'', nr_uptime_s = None,
          nr_payout_eligible = True, nr_suggested_action = ''pay_weekly'',
          nr_health_error = None, nr_miners_error = None\<rparr>],
      st_node_miners = [(''https://50.28.86.131'', [])],
      st_version_mismatch = []\<rparr>"
  by code_simp

end
